theory Spec2Isabelle
  imports Main "HOL-Library.Sublist"
begin

section \<open>The monitor seeder of migrations/001_seed_monitors.ts\<close>

text \<open>
  The migration seeds the \<open>monitor\<close> table of an Uptime Kuma SQLite database with one
  row per mock server endpoint. The model has three layers: the catalogue (the constant
  \<open>monitors\<close> array), the storage (the \<open>monitor\<close> table and the three SQL statements the
  script issues) and the script's functions \<open>seedMonitors\<close>, \<open>clearMonitors\<close> and
  \<open>main\<close>. Console output is kept as a list of structured lines.
\<close>

subsection \<open>Configuration and catalogue\<close>

definition MOCK_SERVER_BASE :: string where
  "MOCK_SERVER_BASE = ''http://host.docker.internal:3000''"

definition DEFAULT_USER_ID :: int where
  "DEFAULT_USER_ID = 1"

text \<open>An entry of the \<open>monitors\<close> array; \<open>timeout\<close> and \<open>keyword\<close> are optional properties.\<close>

record monitor_def =
  name :: string
  path :: string
  description :: string
  timeout :: "int option"
  keyword :: "string option"

definition monitors :: "monitor_def list" where
  "monitors =
    [\<lparr>name = ''Always Up'', path = ''/always-up'',
        description = ''Always returns 200 OK'',
        timeout = None, keyword = None\<rparr>,
     \<lparr>name = ''Always Down'', path = ''/always-down'',
        description = ''Always returns 500 error'',
        timeout = None, keyword = None\<rparr>,
     \<lparr>name = ''Random Failures (20%)'', path = ''/random-failures'',
        description = ''20% chance of failure'',
        timeout = None, keyword = None\<rparr>,
     \<lparr>name = ''Frequent Failures (50%)'', path = ''/frequent-failures'',
        description = ''50% chance of failure'',
        timeout = None, keyword = None\<rparr>,
     \<lparr>name = ''Intermittent (Every 3rd)'', path = ''/intermittent'',
        description = ''Fails every 3rd request'',
        timeout = None, keyword = None\<rparr>,
     \<lparr>name = ''Flapping'', path = ''/flapping'',
        description = ''Alternates between up and down'',
        timeout = None, keyword = None\<rparr>,
     \<lparr>name = ''Slow Response'', path = ''/slow-response'',
        description = ''2-5 second delay'',
        timeout = Some 10, keyword = None\<rparr>,
     \<lparr>name = ''Very Slow'', path = ''/very-slow'',
        description = ''10-15 second delay (may timeout)'',
        timeout = Some 20, keyword = None\<rparr>,
     \<lparr>name = ''Timeout Simulation'', path = ''/timeout'',
        description = ''Never responds (tests timeout handling)'',
        timeout = Some 5, keyword = None\<rparr>,
     \<lparr>name = ''Memory Leak Sim'', path = ''/memory-leak'',
        description = ''Gets slower with each request'',
        timeout = None, keyword = None\<rparr>,
     \<lparr>name = ''Degraded Status'', path = ''/degraded'',
        description = ''Returns 200 with degraded status'',
        timeout = None, keyword = None\<rparr>,
     \<lparr>name = ''Maintenance Mode'', path = ''/maintenance'',
        description = ''Returns 503 maintenance mode'',
        timeout = None, keyword = None\<rparr>,
     \<lparr>name = ''Scheduled Downtime'', path = ''/scheduled-down'',
        description = ''Down during minutes 0-5 and 30-35'',
        timeout = None, keyword = None\<rparr>,
     \<lparr>name = ''Partial Outage'', path = ''/partial-outage'',
        description = ''Random partial service outage'',
        timeout = None, keyword = None\<rparr>,
     \<lparr>name = ''Rate Limited'', path = ''/rate-limited'',
        description = ''Returns 429 after 10 req/min'',
        timeout = None, keyword = None\<rparr>,
     \<lparr>name = ''Health Check'', path = ''/health'',
        description = ''Detailed health check response'',
        timeout = None, keyword = None\<rparr>,
     \<lparr>name = ''Ping'', path = ''/ping'',
        description = ''Simple ping/pong'',
        timeout = None, keyword = None\<rparr>,
     \<lparr>name = ''Keyword Check'', path = ''/keyword-check'',
        description = ''JSON with monitorable keywords'',
        timeout = None, keyword = Some ''OPERATIONAL''\<rparr>,
     \<lparr>name = ''HTML Status'', path = ''/html-status'',
        description = ''HTML page with status'',
        timeout = None, keyword = None\<rparr>,
     \<lparr>name = ''Cert Check'', path = ''/cert-check'',
        description = ''Certificate expiry simulation'',
        timeout = None, keyword = None\<rparr>,
     \<lparr>name = ''Docker Healthy'', path = ''/docker/healthy'',
        description = ''Healthy container status'',
        timeout = None, keyword = None\<rparr>,
     \<lparr>name = ''Docker Unhealthy'', path = ''/docker/unhealthy'',
        description = ''Unhealthy container status'',
        timeout = None, keyword = None\<rparr>]"

subsection \<open>Storage: the monitor table\<close>

text \<open>
  A row of the \<open>monitor\<close> table, with the row id and the 32 columns the INSERT statement
  names. SQL NULL is \<open>None\<close> in the columns where the script writes or may meet it.
\<close>

record monitor_row =
  col_id :: int
  col_name :: string
  col_active :: int
  col_user_id :: int
  col_interval :: int
  col_url :: "string option"
  col_type :: string
  col_weight :: int
  col_method :: string
  col_maxretries :: int
  col_ignore_tls :: int
  col_upside_down :: int
  col_maxredirects :: int
  col_accepted_statuscodes_json :: string
  col_dns_resolve_type :: string
  col_dns_resolve_server :: "string option"
  col_retry_interval :: int
  col_http_body_encoding :: "string option"
  col_timeout :: int
  col_resend_interval :: int
  col_packet_size :: int
  col_gamedig_given_port_only :: int
  col_kafka_producer_ssl :: int
  col_kafka_producer_allow_auto_topic_creation :: int
  col_mqtt_check_type :: string
  col_json_path_operator :: "string option"
  col_cache_bust :: int
  col_conditions :: string
  col_ping_count :: int
  col_ping_numeric :: int
  col_ping_per_request_timeout :: int
  col_description :: string
  col_keyword :: "string option"

text \<open>
  The database: the rows of \<open>monitor\<close> in rowid order, and the high-water mark that
  SQLite keeps for an AUTOINCREMENT key (Uptime Kuma declares \<open>id\<close> so).
\<close>

record database =
  rows :: "monitor_row list"
  seq :: int

subsection \<open>Storage: the SQL statements\<close>

text \<open>
  \<open>SELECT id FROM monitor WHERE url = $url\<close>, read with \<open>get\<close>: the id of the first
  row whose url equals the parameter, or nothing. The column has the default BINARY
  collation, so \<open>=\<close> compares the two texts byte by byte; a NULL url equals nothing.
\<close>

definition existingStmt_get :: "database \<Rightarrow> string \<Rightarrow> int option" where
  "existingStmt_get db url =
     map_option col_id (find (\<lambda>r. col_url r = Some url) (rows db))"

text \<open>
  The id SQLite gives to a new row of a table with an AUTOINCREMENT key: one more than
  the largest id the table holds or has ever held.
\<close>

definition next_id :: "database \<Rightarrow> int" where
  "next_id db = fold max (map col_id (rows db)) (seq db) + 1"

text \<open>
  The INSERT statement, run with its six named parameters. Every other column is the
  constant of the VALUES list.
\<close>

definition insertStmt_run ::
  "database \<Rightarrow> string \<Rightarrow> int \<Rightarrow> string \<Rightarrow> int \<Rightarrow> string \<Rightarrow> string option \<Rightarrow> database" where
  "insertStmt_run db p_name p_user_id p_url p_timeout p_description p_keyword =
     (let i = next_id db;
          r = \<lparr>col_id = i,
               col_name = p_name,
               col_active = 1,
               col_user_id = p_user_id,
               col_interval = 60,
               col_url = Some p_url,
               col_type = ''http'',
               col_weight = 2000,
               col_method = ''GET'',
               col_maxretries = 0,
               col_ignore_tls = 0,
               col_upside_down = 0,
               col_maxredirects = 10,
               col_accepted_statuscodes_json =
                 [CHR ''['', CHR 0x22] @ ''200-299'' @ [CHR 0x22, CHR '']''],
               col_dns_resolve_type = ''A'',
               col_dns_resolve_server = None,
               col_retry_interval = 0,
               col_http_body_encoding = None,
               col_timeout = p_timeout,
               col_resend_interval = 0,
               col_packet_size = 56,
               col_gamedig_given_port_only = 1,
               col_kafka_producer_ssl = 0,
               col_kafka_producer_allow_auto_topic_creation = 0,
               col_mqtt_check_type = ''keyword'',
               col_json_path_operator = None,
               col_cache_bust = 0,
               col_conditions = ''[]'',
               col_ping_count = 1,
               col_ping_numeric = 1,
               col_ping_per_request_timeout = 2,
               col_description = p_description,
               col_keyword = p_keyword\<rparr>
      in db\<lparr>rows := rows db @ [r], seq := i\<rparr>)"

text \<open>
  SQLite's LIKE operator, as \<open>DELETE FROM monitor WHERE url LIKE '...'\<close> applies it
  with the default settings: \<open>%\<close> in the pattern stands for any run of characters, \<open>_\<close>
  for any one character, and every other character matches itself, the ASCII letters
  without regard to case.
\<close>

definition sqlite3Tolower :: "char \<Rightarrow> char" where
  "sqlite3Tolower c =
     (case map_of (zip ''ABCDEFGHIJKLMNOPQRSTUVWXYZ'' ''abcdefghijklmnopqrstuvwxyz'') c of
        None \<Rightarrow> c
      | Some l \<Rightarrow> l)"

fun patternCompare :: "string \<Rightarrow> string \<Rightarrow> bool" where
  "patternCompare [] s = (s = [])"
| "patternCompare (c # p) s =
     (if c = CHR ''%'' then list_ex (patternCompare p) (suffixes s)
      else (case s of
              [] \<Rightarrow> False
            | d # t \<Rightarrow> (c = CHR ''_'' \<or> sqlite3Tolower c = sqlite3Tolower d) \<and> patternCompare p t))"

text \<open>A WHERE clause keeps a row when its condition is true; LIKE on NULL is NULL.\<close>

definition url_like :: "string \<Rightarrow> monitor_row \<Rightarrow> bool" where
  "url_like pat r = (case col_url r of None \<Rightarrow> False | Some u \<Rightarrow> patternCompare pat u)"

text \<open>\<open>DELETE FROM monitor WHERE url LIKE pat\<close>: the database left, and \<open>changes\<close>.\<close>

definition delete_where_url_like :: "database \<Rightarrow> string \<Rightarrow> database \<times> nat" where
  "delete_where_url_like db pat =
     (db\<lparr>rows := filter (\<lambda>r. \<not> url_like pat r) (rows db)\<rparr>,
      length (filter (url_like pat) (rows db)))"

text \<open>\<open>SELECT COUNT(*) as count FROM monitor\<close>.\<close>

definition count_query :: "database \<Rightarrow> nat" where
  "count_query db = length (rows db)"

subsection \<open>The script\<close>

text \<open>The lines the script prints, without their decoration.\<close>

datatype log_line =
    Banner
  | DatabaseNotFound
  | StartKumaHint
  | Skipping string
  | Inserted string
  | Summary nat nat
  | Cleared nat
  | TotalMonitors nat
  | MigrationComplete
  | RestartHint

text \<open>
  The \<open>for\<close> loop of \<open>seedMonitors\<close> over the entries still to process, with the
  database, the two counters and the console as they stand.
\<close>

fun seed_loop ::
  "monitor_def list \<Rightarrow> database \<Rightarrow> nat \<Rightarrow> nat \<Rightarrow> log_line list
     \<Rightarrow> database \<times> nat \<times> nat \<times> log_line list" where
  "seed_loop [] db inserted skipped out = (db, inserted, skipped, out)"
| "seed_loop (monitor # rest) db inserted skipped out =
     (let url = MOCK_SERVER_BASE @ path monitor;
          existing = existingStmt_get db url
      in if existing \<noteq> None
         then seed_loop rest db inserted (skipped + 1) (out @ [Skipping (name monitor)])
         else seed_loop rest
                (insertStmt_run db (name monitor) DEFAULT_USER_ID url
                   (case timeout monitor of None \<Rightarrow> 48 | Some t \<Rightarrow> t)
                   (description monitor) (keyword monitor))
                (inserted + 1) skipped (out @ [Inserted (name monitor)]))"

definition seedMonitors :: "database \<Rightarrow> database \<times> log_line list" where
  "seedMonitors db =
     (case seed_loop monitors db 0 0 [] of
        (db', inserted, skipped, out) \<Rightarrow> (db', out @ [Summary inserted skipped]))"

definition clearMonitors :: "database \<Rightarrow> database \<times> log_line list" where
  "clearMonitors db =
     (case delete_where_url_like db (MOCK_SERVER_BASE @ ''%'') of
        (db', changes) \<Rightarrow> (db', [Cleared changes]))"

text \<open>
  A run of the script: the exit status, the database file afterwards (\<open>None\<close> when there
  is none) and the console.
\<close>

record run =
  exit_status :: int
  db_file :: "database option"
  console :: "log_line list"

text \<open>The two flags \<open>main\<close> looks for in its arguments.\<close>

definition shouldClear :: "string list \<Rightarrow> bool" where
  "shouldClear args = (''--clear'' \<in> set args \<or> ''-c'' \<in> set args)"

definition shouldForce :: "string list \<Rightarrow> bool" where
  "shouldForce args = (''--force'' \<in> set args \<or> ''-f'' \<in> set args)"

text \<open>
  \<open>main\<close>, from the database file found at \<open>DB_PATH\<close> (\<open>None\<close> when \<open>existsSync\<close> is
  false) and \<open>process.argv\<close>. Without the file, \<open>process.exit(1)\<close> ends the run before
  the database is opened. Closing the database in the \<open>finally\<close> block leaves its
  content as it is.
\<close>

definition main :: "database option \<Rightarrow> string list \<Rightarrow> run" where
  "main file argv =
     (case file of
        None \<Rightarrow>
          \<lparr>exit_status = 1, db_file = None,
           console = [Banner, DatabaseNotFound, StartKumaHint]\<rparr>
      | Some db \<Rightarrow>
          (let args = drop 2 argv;
               (db1, out1) = (if shouldClear args then clearMonitors db else (db, []));
               (db2, out2) = (if shouldForce args then clearMonitors db1 else (db1, []));
               (db3, out3) = seedMonitors db2;
               countResult = count_query db3
           in \<lparr>exit_status = 0, db_file = Some db3,
               console = [Banner] @ out1 @ out2 @ out3 @
                 [TotalMonitors countResult, MigrationComplete, RestartHint]\<rparr>))"

subsection \<open>Notions used to state the properties\<close>

text \<open>A seed or a clear operation, and its effect on the database.\<close>

datatype operation = Seed | Clear

fun apply_operation :: "operation \<Rightarrow> database \<Rightarrow> database" where
  "apply_operation Seed db = fst (seedMonitors db)"
| "apply_operation Clear db = fst (clearMonitors db)"

text \<open>How many rows carry a given url.\<close>

definition records_with_url :: "database \<Rightarrow> string \<Rightarrow> nat" where
  "records_with_url db u = length (filter (\<lambda>r. col_url r = Some u) (rows db))"

text \<open>The row is what the loop inserts for the catalogue entry: the columns that vary.\<close>

definition inserted_row :: "monitor_def \<Rightarrow> monitor_row \<Rightarrow> bool" where
  "inserted_row m r \<longleftrightarrow>
     col_url r = Some (MOCK_SERVER_BASE @ path m) \<and> col_name r = name m \<and>
     col_user_id r = DEFAULT_USER_ID \<and>
     col_timeout r = (case timeout m of None \<Rightarrow> 48 | Some t \<Rightarrow> t) \<and>
     col_description r = description m \<and> col_keyword r = keyword m"

text \<open>The database that \<open>main\<close> hands to \<open>seedMonitors\<close>.\<close>

definition cleared :: "database \<Rightarrow> string list \<Rightarrow> database" where
  "cleared db argv =
     (if shouldClear (drop 2 argv) \<or> shouldForce (drop 2 argv) then fst (clearMonitors db) else db)"

subsection \<open>Sample data\<close>

definition empty_db :: database where
  "empty_db = \<lparr>rows = [], seq = 0\<rparr>"

definition ping_def :: monitor_def where
  "ping_def = \<lparr>name = ''Ping'', path = ''/ping'', description = ''Simple ping/pong'',
                timeout = None, keyword = None\<rparr>"

definition ping_again :: monitor_def where
  "ping_again = \<lparr>name = ''Ping again'', path = ''/ping'', description = ''Second entry'',
                  timeout = Some 5, keyword = None\<rparr>"

text \<open>
  A monitor added by hand in the Uptime Kuma interface, its url typed in capitals, and a
  second one that watches another host.
\<close>

definition other_row :: monitor_row where
  "other_row =
     \<lparr>col_id = 1,
      col_name = ''Staging API'',
      col_active = 1,
      col_user_id = 1,
      col_interval = 60,
      col_url = Some ''HTTP://HOST.DOCKER.INTERNAL:3000/status'',
      col_type = ''http'',
      col_weight = 2000,
      col_method = ''GET'',
      col_maxretries = 0,
      col_ignore_tls = 0,
      col_upside_down = 0,
      col_maxredirects = 10,
      col_accepted_statuscodes_json = [CHR ''['', CHR 0x22] @ ''200-299'' @ [CHR 0x22, CHR '']''],
      col_dns_resolve_type = ''A'',
      col_dns_resolve_server = None,
      col_retry_interval = 0,
      col_http_body_encoding = None,
      col_timeout = 48,
      col_resend_interval = 0,
      col_packet_size = 56,
      col_gamedig_given_port_only = 1,
      col_kafka_producer_ssl = 0,
      col_kafka_producer_allow_auto_topic_creation = 0,
      col_mqtt_check_type = ''keyword'',
      col_json_path_operator = None,
      col_cache_bust = 0,
      col_conditions = ''[]'',
      col_ping_count = 1,
      col_ping_numeric = 1,
      col_ping_per_request_timeout = 2,
      col_description = ''added by hand'',
      col_keyword = None\<rparr>"

definition unrelated_row :: monitor_row where
  "unrelated_row =
     other_row\<lparr>col_id := 2, col_name := ''Company site'',
               col_url := Some ''https://example.org/health''\<rparr>"

section \<open>Properties of the storage statements\<close>

lemma existing_None_iff:
  "existingStmt_get db u = None \<longleftrightarrow> Some u \<notin> col_url ` set (rows db)"
  by (auto simp: existingStmt_get_def find_None_iff image_iff)

lemma rows_insert:
  "\<exists>r. rows (insertStmt_run db n uid u t d k) = rows db @ [r] \<and> col_url r = Some u
       \<and> col_name r = n \<and> col_user_id r = uid \<and> col_timeout r = t \<and> col_description r = d
       \<and> col_keyword r = k \<and> col_id r = next_id db"
  by (simp add: insertStmt_run_def Let_def)

lemma urls_insert:
  "col_url ` set (rows (insertStmt_run db n uid u t d k)) = insert (Some u) (col_url ` set (rows db))"
  using rows_insert [of db n uid u t d k] by auto

text \<open>
  A pattern made of plain characters and a final \<open>%\<close> matches the texts that begin with
  those characters, letter case aside.
\<close>

lemma patternCompare_percent: "patternCompare ''%'' s"
  by (simp add: list_ex_iff in_set_suffixes)

lemma patternCompare_prefix:
  "\<forall>c\<in>set p. c \<noteq> CHR ''%'' \<and> c \<noteq> CHR ''_'' \<Longrightarrow>
   patternCompare (p @ ''%'') s \<longleftrightarrow>
     length p \<le> length s \<and> map sqlite3Tolower (take (length p) s) = map sqlite3Tolower p"
proof (induction p arbitrary: s)
  case Nil
  show ?case using patternCompare_percent by simp
next
  case (Cons c p)
  then have c: "c \<noteq> CHR ''%''" "c \<noteq> CHR ''_''" by simp_all
  show ?case
  proof (cases s)
    case Nil
    with c show ?thesis by simp
  next
    case (Cons d t)
    have "patternCompare (p @ ''%'') t \<longleftrightarrow>
            length p \<le> length t \<and> map sqlite3Tolower (take (length p) t) = map sqlite3Tolower p"
      using Cons.prems by (intro Cons.IH) simp
    with c Cons show ?thesis by auto
  qed
qed

lemma base_plain: "\<forall>c\<in>set MOCK_SERVER_BASE. c \<noteq> CHR ''%'' \<and> c \<noteq> CHR ''_''"
  by (simp add: MOCK_SERVER_BASE_def)

section \<open>The seeding loop\<close>

text \<open>The loop's step, with the existence check read as membership of the url.\<close>

lemma seed_loop_Cons:
  "seed_loop (m # rest) db i s out =
     (if Some (MOCK_SERVER_BASE @ path m) \<in> col_url ` set (rows db)
      then seed_loop rest db i (s + 1) (out @ [Skipping (name m)])
      else seed_loop rest
             (insertStmt_run db (name m) DEFAULT_USER_ID (MOCK_SERVER_BASE @ path m)
                (case timeout m of None \<Rightarrow> 48 | Some t \<Rightarrow> t) (description m) (keyword m))
             (i + 1) s (out @ [Inserted (name m)]))"
  unfolding seed_loop.simps Let_def existing_None_iff by simp

lemma seed_loop_append:
  "seed_loop (xs @ ys) db i s out =
     (case seed_loop xs db i s out of (db', i', s', out') \<Rightarrow> seed_loop ys db' i' s' out')"
  by (induction xs arbitrary: db i s out) (simp_all add: Let_def)

lemma seed_loop_all_skipped:
  "(\<lambda>m. Some (MOCK_SERVER_BASE @ path m)) ` set ms \<subseteq> col_url ` set (rows db) \<Longrightarrow>
   seed_loop ms db i s out = (db, i, s + length ms, out @ map (\<lambda>m. Skipping (name m)) ms)"
  by (induction ms arbitrary: s out) (simp_all add: seed_loop_Cons del: seed_loop.simps(2))

lemma seed_loop_urls:
  "col_url ` set (rows (fst (seed_loop ms db i s out))) =
     col_url ` set (rows db) \<union> (\<lambda>m. Some (MOCK_SERVER_BASE @ path m)) ` set ms"
  by (induction ms arbitrary: db i s out)
     (auto simp add: seed_loop_Cons urls_insert simp del: seed_loop.simps(2))

lemma seed_twice:
  "seed_loop ms db i s out = (db', i', s', out') \<Longrightarrow>
   seed_loop ms db' j t out2 = (db', j, t + length ms, out2 @ map (\<lambda>m. Skipping (name m)) ms)"
  using seed_loop_urls [of ms db i s out] by (intro seed_loop_all_skipped) simp

lemma seed_loop_extends:
  "\<exists>new. rows (fst (seed_loop ms db i s out)) = rows db @ new"
proof (induction ms arbitrary: db i s out)
  case Nil
  show ?case by simp
next
  case (Cons m ms)
  let ?db = "insertStmt_run db (name m) DEFAULT_USER_ID (MOCK_SERVER_BASE @ path m)
                (case timeout m of None \<Rightarrow> 48 | Some t \<Rightarrow> t) (description m) (keyword m)"
  show ?case
  proof (cases "Some (MOCK_SERVER_BASE @ path m) \<in> col_url ` set (rows db)")
    case True
    then show ?thesis using Cons.IH [of db i "s + 1"] by (simp add: seed_loop_Cons del: seed_loop.simps(2))
  next
    case False
    obtain r where r: "rows ?db = rows db @ [r]"
      using rows_insert by blast
    obtain new where "rows (fst (seed_loop ms ?db (i + 1) s (out @ [Inserted (name m)]))) = rows ?db @ new"
      using Cons.IH by blast
    with r False show ?thesis by (simp add: seed_loop_Cons del: seed_loop.simps(2))
  qed
qed

lemma fst_seedMonitors: "fst (seedMonitors db) = fst (seed_loop monitors db 0 0 [])"
  by (simp add: seedMonitors_def split: prod.splits)

text \<open>
  The rows a run adds come after the rows it found, have urls that differ from one
  another and from every url it found, and each stems from an entry of the catalogue.
\<close>

lemma seed_loop_new_rows:
  "\<exists>new. rows (fst (seed_loop ms db i s out)) = rows db @ new \<and>
         distinct (map col_url new) \<and>
         col_url ` set new \<inter> col_url ` set (rows db) = {} \<and>
         (\<forall>r\<in>set new. \<exists>m\<in>set ms. inserted_row m r)"
proof (induction ms arbitrary: db i s out)
  case Nil
  show ?case by simp
next
  case (Cons m ms)
  let ?u = "MOCK_SERVER_BASE @ path m"
  let ?db = "insertStmt_run db (name m) DEFAULT_USER_ID ?u
                (case timeout m of None \<Rightarrow> 48 | Some t \<Rightarrow> t) (description m) (keyword m)"
  show ?case
  proof (cases "Some ?u \<in> col_url ` set (rows db)")
    case True
    obtain new where "rows (fst (seed_loop ms db i (s + 1) (out @ [Skipping (name m)]))) = rows db @ new"
      "distinct (map col_url new)" "col_url ` set new \<inter> col_url ` set (rows db) = {}"
      "\<forall>r\<in>set new. \<exists>m\<in>set ms. inserted_row m r"
      using Cons.IH by blast
    with True show ?thesis
      by (auto simp add: seed_loop_Cons simp del: seed_loop.simps(2))
  next
    case False
    obtain r where r: "rows ?db = rows db @ [r]" "inserted_row m r"
      using rows_insert [of db "name m" DEFAULT_USER_ID ?u _ "description m" "keyword m"]
      unfolding inserted_row_def by blast
    obtain new where new:
      "rows (fst (seed_loop ms ?db (i + 1) s (out @ [Inserted (name m)]))) = rows ?db @ new"
      "distinct (map col_url new)" "col_url ` set new \<inter> col_url ` set (rows ?db) = {}"
      "\<forall>r\<in>set new. \<exists>m\<in>set ms. inserted_row m r"
      using Cons.IH by blast
    have u: "col_url r = Some ?u" using r(2) by (simp add: inserted_row_def)
    have "rows (fst (seed_loop (m # ms) db i s out)) = rows db @ (r # new)"
      using False new(1) r(1) by (simp add: seed_loop_Cons del: seed_loop.simps(2))
    moreover have "distinct (map col_url (r # new))"
      using new(2,3) r(1) by auto
    moreover have "col_url ` set (r # new) \<inter> col_url ` set (rows db) = {}"
      using new(3) r(1) u False by auto
    moreover have "\<forall>x\<in>set (r # new). \<exists>m'\<in>set (m # ms). inserted_row m' x"
      using new(4) r(2) by auto
    ultimately show ?thesis by blast
  qed
qed

lemma filter_url_empty:
  "Some u \<notin> col_url ` set rs \<Longrightarrow> filter (\<lambda>r. col_url r = Some u) rs = []"
  by (induction rs) auto

lemma distinct_filter_le1:
  "distinct (map f xs) \<Longrightarrow> length (filter (\<lambda>x. f x = v) xs) \<le> 1"
proof (induction xs)
  case Nil
  show ?case by simp
next
  case (Cons x xs)
  show ?case
  proof (cases "f x = v")
    case True
    with Cons.prems have "v \<notin> f ` set xs" by auto
    then have "filter (\<lambda>x. f x = v) xs = []" by (induction xs) auto
    with True show ?thesis by simp
  next
    case False
    with Cons show ?thesis by simp
  qed
qed

lemma seed_loop_records_with_url:
  "records_with_url (fst (seed_loop ms db i s out)) u \<le> max 1 (records_with_url db u)"
proof -
  obtain new where new: "rows (fst (seed_loop ms db i s out)) = rows db @ new"
    "distinct (map col_url new)" "col_url ` set new \<inter> col_url ` set (rows db) = {}"
    using seed_loop_new_rows by blast
  have le1: "length (filter (\<lambda>r. col_url r = Some u) new) \<le> 1"
    using new(2) by (rule distinct_filter_le1)
  show ?thesis
  proof (cases "Some u \<in> col_url ` set (rows db)")
    case True
    with new(3) have "Some u \<notin> col_url ` set new" by auto
    then have "filter (\<lambda>r. col_url r = Some u) new = []" by (rule filter_url_empty)
    with new(1) show ?thesis by (simp add: records_with_url_def)
  next
    case False
    then have "filter (\<lambda>r. col_url r = Some u) (rows db) = []" by (rule filter_url_empty)
    with new(1) le1 show ?thesis by (simp add: records_with_url_def)
  qed
qed

lemma seed_loop_all_inserted:
  "distinct (map path ms) \<Longrightarrow>
   (\<lambda>m. Some (MOCK_SERVER_BASE @ path m)) ` set ms \<inter> col_url ` set (rows db) = {} \<Longrightarrow>
   \<exists>db'. seed_loop ms db i s out = (db', i + length ms, s, out @ map (\<lambda>m. Inserted (name m)) ms) \<and>
         length (rows db') = length (rows db) + length ms"
proof (induction ms arbitrary: db i out)
  case Nil
  show ?case by simp
next
  case (Cons m ms)
  let ?u = "MOCK_SERVER_BASE @ path m"
  let ?db = "insertStmt_run db (name m) DEFAULT_USER_ID ?u
                (case timeout m of None \<Rightarrow> 48 | Some t \<Rightarrow> t) (description m) (keyword m)"
  from Cons.prems(2) have fresh: "Some ?u \<notin> col_url ` set (rows db)" by auto
  have len: "length (rows ?db) = length (rows db) + 1"
    using rows_insert [of db "name m" DEFAULT_USER_ID ?u] by (metis length_append_singleton Suc_eq_plus1)
  have "distinct (map path ms)" using Cons.prems(1) by simp
  moreover have "(\<lambda>m. Some (MOCK_SERVER_BASE @ path m)) ` set ms \<inter> col_url ` set (rows ?db) = {}"
    using Cons.prems by (auto simp: urls_insert)
  ultimately obtain db' where
    "seed_loop ms ?db (i + 1) s (out @ [Inserted (name m)]) =
       (db', (i + 1) + length ms, s, (out @ [Inserted (name m)]) @ map (\<lambda>m. Inserted (name m)) ms)"
    "length (rows db') = length (rows ?db) + length ms"
    using Cons.IH by blast
  with fresh len show ?case
    by (simp add: seed_loop_Cons del: seed_loop.simps(2))
qed

text \<open>The catalogue has 22 entries and no path twice.\<close>

lemma distinct_paths: "distinct (map path monitors)"
  by (simp add: monitors_def)

lemma length_monitors: "length monitors = 22"
  by (simp add: monitors_def)

lemma seedMonitors_empty:
  "rows db = [] \<Longrightarrow>
   \<exists>db'. seedMonitors db =
           (db', map (\<lambda>m. Inserted (name m)) monitors @ [Summary (length monitors) 0]) \<and>
         count_query db' = length monitors"
proof -
  assume empty: "rows db = []"
  then have none: "(\<lambda>m. Some (MOCK_SERVER_BASE @ path m)) ` set monitors \<inter> col_url ` set (rows db) = {}"
    by simp
  obtain db' where
    "seed_loop monitors db 0 0 [] =
       (db', 0 + length monitors, 0, [] @ map (\<lambda>m. Inserted (name m)) monitors)"
    "length (rows db') = length (rows db) + length monitors"
    using seed_loop_all_inserted [OF distinct_paths none, of 0 0 "[]"] by (elim exE conjE)
  with empty show ?thesis
    by (simp add: seedMonitors_def count_query_def)
qed

lemma seedMonitors_summary: "\<exists>out i s. snd (seedMonitors db) = out @ [Summary i s]"
  by (simp add: seedMonitors_def split: prod.splits)

section \<open>Clearing, and the whole run\<close>

lemma clear_empty: "rows db = [] \<Longrightarrow> clearMonitors db = (db, [Cleared 0])"
  by (simp add: clearMonitors_def delete_where_url_like_def)

lemma clear_twice: "fst (clearMonitors (fst (clearMonitors db))) = fst (clearMonitors db)"
  by (simp add: clearMonitors_def delete_where_url_like_def)

lemma clear_records_with_url:
  "records_with_url (fst (clearMonitors db)) u \<le> records_with_url db u"
proof -
  have "length (filter (\<lambda>r. col_url r = Some u) (filter P rs)) \<le> length (filter (\<lambda>r. col_url r = Some u) rs)"
    for P and rs :: "monitor_row list"
    by (induction rs) auto
  then show ?thesis
    by (simp add: clearMonitors_def delete_where_url_like_def records_with_url_def)
qed

lemma apply_operation_le1:
  "records_with_url db u \<le> 1 \<Longrightarrow> records_with_url (apply_operation op db) u \<le> 1"
proof (cases op)
  case Seed
  assume "records_with_url db u \<le> 1"
  then have "max 1 (records_with_url db u) = 1" by simp
  with seed_loop_records_with_url [of monitors db 0 0 "[]" u] Seed
  show ?thesis by (simp add: fst_seedMonitors)
next
  case Clear
  assume "records_with_url db u \<le> 1"
  with clear_records_with_url [of db u] Clear show ?thesis by simp
qed

lemma main_Some:
  "\<exists>pre. main (Some db) argv =
     \<lparr>exit_status = 0, db_file = Some (fst (seedMonitors (cleared db argv))),
      console = pre @ snd (seedMonitors (cleared db argv)) @
        [TotalMonitors (count_query (fst (seedMonitors (cleared db argv)))),
         MigrationComplete, RestartHint]\<rparr>"
proof -
  obtain db1 out1 where one:
    "(if shouldClear (drop 2 argv) then clearMonitors db else (db, [])) = (db1, out1)"
    by (cases "if shouldClear (drop 2 argv) then clearMonitors db else (db, [])") auto
  obtain db2 out2 where two:
    "(if shouldForce (drop 2 argv) then clearMonitors db1 else (db1, [])) = (db2, out2)"
    by (cases "if shouldForce (drop 2 argv) then clearMonitors db1 else (db1, [])") auto
  obtain db3 out3 where three: "seedMonitors db2 = (db3, out3)"
    by (cases "seedMonitors db2") auto
  have "db1 = (if shouldClear (drop 2 argv) then fst (clearMonitors db) else db)"
    using one by (auto split: if_splits)
  moreover have "db2 = (if shouldForce (drop 2 argv) then fst (clearMonitors db1) else db1)"
    using two by (auto split: if_splits)
  ultimately have db2: "db2 = cleared db argv"
    by (simp add: cleared_def clear_twice)
  have "main (Some db) argv =
     \<lparr>exit_status = 0, db_file = Some db3,
      console = ([Banner] @ out1 @ out2) @ out3 @
        [TotalMonitors (count_query db3), MigrationComplete, RestartHint]\<rparr>"
    by (simp add: main_def Let_def one two three)
  with three db2 show ?thesis by auto
qed

section \<open>The claims of the specification\<close>

text \<open>
  Claim C1. Seeding twice in a row, with no clear in between, inserts nothing the second
  time: from every database, the second run returns the database the first run left,
  reports every entry of the catalogue as skipped, and sums up 0 inserted and all
  skipped.
\<close>

theorem seedMonitors_idempotent:
  "(case seedMonitors db of (db1, out1) \<Rightarrow>
      seedMonitors db1 =
        (db1, map (\<lambda>m. Skipping (name m)) monitors @ [Summary 0 (length monitors)]))"
proof -
  obtain db1 i s out where first: "seed_loop monitors db 0 0 [] = (db1, i, s, out)"
    by (cases "seed_loop monitors db 0 0 []") auto
  have "seed_loop monitors db1 0 0 [] =
          (db1, 0, 0 + length monitors, [] @ map (\<lambda>m. Skipping (name m)) monitors)"
    using first by (rule seed_twice)
  with first show ?thesis by (simp add: seedMonitors_def)
qed

text \<open>
  Claim C2, as the specification states it: clear deletes exactly the rows whose url
  begins, byte for byte, with the base URL. The DELETE statement selects with LIKE,
  which does not tell ASCII capitals from small letters: the hand-made monitor below has
  a url that does not begin with the bytes of the base URL, and clear deletes it.
\<close>

theorem clearMonitors_not_bytewise:
  "col_url other_row = Some ''HTTP://HOST.DOCKER.INTERNAL:3000/status'' \<and>
   \<not> prefix MOCK_SERVER_BASE ''HTTP://HOST.DOCKER.INTERNAL:3000/status'' \<and>
   clearMonitors \<lparr>rows = [other_row], seq = 1\<rparr> = (\<lparr>rows = [], seq = 1\<rparr>, [Cleared 1])"
  by (simp add: other_row_def MOCK_SERVER_BASE_def clearMonitors_def delete_where_url_like_def
        url_like_def sqlite3Tolower_def)

text \<open>
  Claim C2, amended: clear deletes exactly the rows whose url is not NULL and begins with
  the base URL when ASCII letters are compared without regard to case. Every other row
  stays, unchanged and in its place; the id high-water mark stays; the line printed
  counts the rows deleted.
\<close>

theorem clearMonitors_scope:
  "rows (fst (clearMonitors db)) =
     filter (\<lambda>r. \<not> (\<exists>u. col_url r = Some u \<and> length MOCK_SERVER_BASE \<le> length u \<and>
                        map sqlite3Tolower (take (length MOCK_SERVER_BASE) u) =
                          map sqlite3Tolower MOCK_SERVER_BASE))
       (rows db) \<and>
   seq (fst (clearMonitors db)) = seq db \<and>
   snd (clearMonitors db) = [Cleared (length (rows db) - length (rows (fst (clearMonitors db))))]"
proof -
  have like: "url_like (MOCK_SERVER_BASE @ ''%'') r \<longleftrightarrow>
          (\<exists>u. col_url r = Some u \<and> length MOCK_SERVER_BASE \<le> length u \<and>
                        map sqlite3Tolower (take (length MOCK_SERVER_BASE) u) =
                          map sqlite3Tolower MOCK_SERVER_BASE)" for r
    using patternCompare_prefix [OF base_plain] by (simp add: url_like_def split: option.splits)
  have rows': "rows (fst (clearMonitors db)) =
     filter (\<lambda>r. \<not> url_like (MOCK_SERVER_BASE @ ''%'') r) (rows db)"
    and seq': "seq (fst (clearMonitors db)) = seq db"
    and out: "snd (clearMonitors db) =
      [Cleared (length (filter (url_like (MOCK_SERVER_BASE @ ''%'')) (rows db)))]"
    by (simp_all add: clearMonitors_def delete_where_url_like_def)
  have "length (filter (url_like (MOCK_SERVER_BASE @ ''%'')) (rows db)) =
          length (rows db) - length (rows (fst (clearMonitors db)))"
    unfolding rows'
    using sum_length_filter_compl [of "url_like (MOCK_SERVER_BASE @ ''%'')" "rows db"] by arith
  with out have "snd (clearMonitors db) =
      [Cleared (length (rows db) - length (rows (fst (clearMonitors db))))]"
    by (simp only:)
  moreover have "rows (fst (clearMonitors db)) =
     filter (\<lambda>r. \<not> (\<exists>u. col_url r = Some u \<and> length MOCK_SERVER_BASE \<le> length u \<and>
                        map sqlite3Tolower (take (length MOCK_SERVER_BASE) u) =
                          map sqlite3Tolower MOCK_SERVER_BASE))
       (rows db)"
    unfolding rows' by (simp only: like)
  ultimately show ?thesis using seq' by blast
qed

theorem clearMonitors_scope_witness:
  "rows (fst (clearMonitors \<lparr>rows = [other_row, unrelated_row], seq = 2\<rparr>)) = [unrelated_row]"
  using clearMonitors_scope [of "\<lparr>rows = [other_row, unrelated_row], seq = 2\<rparr>"]
  by (simp add: other_row_def unrelated_row_def MOCK_SERVER_BASE_def sqlite3Tolower_def)

text \<open>
  Claim C3. For every url: if at most one row carries it, then after any sequence of
  seed and clear operations at most one row carries it. No constraint of the storage is
  involved: \<open>insertStmt_run\<close> appends whatever it is given, and the loop's existence
  check alone keeps the urls apart.
\<close>

theorem url_unique_invariant:
  "records_with_url db u \<le> 1 \<Longrightarrow> records_with_url (fold apply_operation ops db) u \<le> 1"
proof (induction ops arbitrary: db)
  case Nil
  then show ?case by simp
next
  case (Cons op ops)
  from Cons.prems have "records_with_url (apply_operation op db) u \<le> 1"
    by (rule apply_operation_le1)
  then have "records_with_url (fold apply_operation ops (apply_operation op db)) u \<le> 1"
    by (rule Cons.IH)
  then show ?case by simp
qed

theorem url_unique_invariant_witness:
  "records_with_url empty_db ''http://host.docker.internal:3000/ping'' \<le> 1 \<and>
   records_with_url (fold apply_operation [Seed, Clear, Seed] empty_db)
     ''http://host.docker.internal:3000/ping'' \<le> 1"
  using url_unique_invariant [of empty_db "''http://host.docker.internal:3000/ping''" "[Seed, Clear, Seed]"]
  by (simp add: records_with_url_def empty_db_def)

text \<open>
  Claim C4. Entries with different paths have different urls. An entry is skipped if and
  only if some row's url equals, byte for byte, the entry's url; and the id the existence
  check returns is that of such a row.
\<close>

theorem natural_key:
  "(path m1 \<noteq> path m2 \<longrightarrow> MOCK_SERVER_BASE @ path m1 \<noteq> MOCK_SERVER_BASE @ path m2) \<and>
   ((\<exists>r\<in>set (rows db). col_url r = Some (MOCK_SERVER_BASE @ path m)) \<longleftrightarrow>
      seed_loop [m] db i s out = (db, i, s + 1, out @ [Skipping (name m)])) \<and>
   (\<forall>k. existingStmt_get db (MOCK_SERVER_BASE @ path m) = Some k \<longrightarrow>
      (\<exists>r\<in>set (rows db). col_id r = k \<and> col_url r = Some (MOCK_SERVER_BASE @ path m)))"
proof (intro conjI)
  show "path m1 \<noteq> path m2 \<longrightarrow> MOCK_SERVER_BASE @ path m1 \<noteq> MOCK_SERVER_BASE @ path m2"
    by simp
  show "(\<exists>r\<in>set (rows db). col_url r = Some (MOCK_SERVER_BASE @ path m)) \<longleftrightarrow>
      seed_loop [m] db i s out = (db, i, s + 1, out @ [Skipping (name m)])"
    by (auto simp add: seed_loop_Cons image_iff simp del: seed_loop.simps(2))
  show "\<forall>k. existingStmt_get db (MOCK_SERVER_BASE @ path m) = Some k \<longrightarrow>
      (\<exists>r\<in>set (rows db). col_id r = k \<and> col_url r = Some (MOCK_SERVER_BASE @ path m))"
    by (auto simp: existingStmt_get_def find_Some_iff)
qed

theorem natural_key_witness:
  "path ping_def \<noteq> ''/health'' \<and>
   MOCK_SERVER_BASE @ path ping_def \<noteq> MOCK_SERVER_BASE @ ''/health'' \<and>
   seed_loop [ping_def] \<lparr>rows = [other_row], seq = 1\<rparr> 0 0 [] \<noteq>
     (\<lparr>rows = [other_row], seq = 1\<rparr>, 0, 1, [Skipping ''Ping''])"
  using natural_key [of ping_def "\<lparr>name = ''Health Check'', path = ''/health'',
        description = ''Detailed health check response'', timeout = None, keyword = None\<rparr>"
        "\<lparr>rows = [other_row], seq = 1\<rparr>" ping_def 0 0 "[]"]
  by (simp add: ping_def_def other_row_def MOCK_SERVER_BASE_def)

text \<open>
  Claim C5. On a database with no rows the run reports as many inserted as the catalogue
  has entries and none skipped, and the count query that follows returns the same
  number, whichever flags are given.
\<close>

theorem summary_on_empty_storage:
  assumes "rows db = []"
  shows "\<exists>pre. console (main (Some db) argv) =
           pre @ [Summary (length monitors) 0, TotalMonitors (length monitors),
                  MigrationComplete, RestartHint]"
proof -
  have "rows (cleared db argv) = []"
    using assms by (simp add: cleared_def clear_empty)
  then obtain db' where seed: "seedMonitors (cleared db argv) =
           (db', map (\<lambda>m. Inserted (name m)) monitors @ [Summary (length monitors) 0])"
         "count_query db' = length monitors"
    using seedMonitors_empty by blast
  obtain pre where "main (Some db) argv =
     \<lparr>exit_status = 0, db_file = Some (fst (seedMonitors (cleared db argv))),
      console = pre @ snd (seedMonitors (cleared db argv)) @
        [TotalMonitors (count_query (fst (seedMonitors (cleared db argv)))),
         MigrationComplete, RestartHint]\<rparr>"
    using main_Some by blast
  with seed have "console (main (Some db) argv) =
      (pre @ map (\<lambda>m. Inserted (name m)) monitors) @
         [Summary (length monitors) 0, TotalMonitors (length monitors),
                  MigrationComplete, RestartHint]"
    by simp
  then show ?thesis by blast
qed

theorem summary_on_empty_storage_witness:
  "rows empty_db = [] \<and>
   (\<exists>pre. console (main (Some empty_db) [''bun'', ''001_seed_monitors.ts'']) =
      pre @ [Summary 22 0, TotalMonitors 22, MigrationComplete, RestartHint])"
  using summary_on_empty_storage [of empty_db "[''bun'', ''001_seed_monitors.ts'']"]
  by (simp add: empty_db_def length_monitors)

text \<open>
  Claim C6. For every entry of the catalogue and every database: if the entry's url is
  not there yet, the run adds a row for it; and a row added for it has the entry's name
  and description, timeout 48 if the entry has no timeout, and a NULL keyword if the
  entry has no keyword.
\<close>

theorem defaults_applied:
  assumes "m \<in> set monitors"
    and "new = drop (length (rows db)) (rows (fst (seedMonitors db)))"
  shows "(Some (MOCK_SERVER_BASE @ path m) \<notin> col_url ` set (rows db) \<longrightarrow>
            (\<exists>r\<in>set new. col_url r = Some (MOCK_SERVER_BASE @ path m))) \<and>
         (\<forall>r\<in>set new. col_url r = Some (MOCK_SERVER_BASE @ path m) \<longrightarrow>
            col_name r = name m \<and> col_description r = description m \<and>
            (timeout m = None \<longrightarrow> col_timeout r = 48) \<and>
            (keyword m = None \<longrightarrow> col_keyword r = None))"
proof -
  obtain new' where new': "rows (fst (seed_loop monitors db 0 0 [])) = rows db @ new'"
    "\<forall>r\<in>set new'. \<exists>m\<in>set monitors. inserted_row m r"
    using seed_loop_new_rows by blast
  have new: "new = new'" using assms(2) new'(1) by (simp add: fst_seedMonitors)
  have inj: "inj_on path (set monitors)"
    using distinct_paths by (simp add: distinct_map)
  have part2: "col_name r = name m \<and> col_description r = description m \<and>
            (timeout m = None \<longrightarrow> col_timeout r = 48) \<and>
            (keyword m = None \<longrightarrow> col_keyword r = None)"
    if r: "r \<in> set new" "col_url r = Some (MOCK_SERVER_BASE @ path m)" for r
  proof -
    obtain m' where m': "m' \<in> set monitors" "inserted_row m' r"
      using new'(2) r(1) new by blast
    then have "path m' = path m" using r(2) by (simp add: inserted_row_def)
    with inj m'(1) assms(1) have "m' = m" by (auto dest: inj_onD)
    with m'(2) show ?thesis by (simp add: inserted_row_def)
  qed
  have part1: "\<exists>r\<in>set new. col_url r = Some (MOCK_SERVER_BASE @ path m)"
    if fresh: "Some (MOCK_SERVER_BASE @ path m) \<notin> col_url ` set (rows db)"
  proof -
    have "Some (MOCK_SERVER_BASE @ path m) \<in> col_url ` set (rows (fst (seed_loop monitors db 0 0 [])))"
      unfolding seed_loop_urls using assms(1) by auto
    with fresh new'(1) new have "Some (MOCK_SERVER_BASE @ path m) \<in> col_url ` set new" by auto
    then show ?thesis by force
  qed
  from part1 part2 show ?thesis by blast
qed

theorem defaults_applied_witness:
  "ping_def \<in> set monitors \<and> timeout ping_def = None \<and> keyword ping_def = None \<and>
   (\<exists>r\<in>set (rows (fst (seedMonitors empty_db))).
      col_url r = Some (MOCK_SERVER_BASE @ ''/ping'') \<and> col_timeout r = 48 \<and> col_keyword r = None)"
proof -
  have m: "ping_def \<in> set monitors"
    by (simp add: monitors_def ping_def_def)
  have new: "rows (fst (seedMonitors empty_db)) =
          drop (length (rows empty_db)) (rows (fst (seedMonitors empty_db)))"
    by (simp add: empty_db_def)
  have "Some (MOCK_SERVER_BASE @ path ping_def) \<notin> col_url ` set (rows empty_db)"
    by (simp add: empty_db_def)
  with defaults_applied [OF m new] m show ?thesis
    by (auto simp: ping_def_def)
qed

text \<open>
  Claim C7. The database a run leaves depends on the arguments only through the two
  flags: with neither, it is the seeded database; with either or both, it is the
  cleared database, seeded. So a run with both flags leaves what a run with the clear
  flag alone leaves.
\<close>

theorem run_modes:
  "db_file (main (Some db) argv) =
     Some (fst (seedMonitors
       (if shouldClear (drop 2 argv) \<or> shouldForce (drop 2 argv) then fst (clearMonitors db) else db))) \<and>
   (shouldClear (drop 2 argv) \<and> shouldForce (drop 2 argv) \<and>
    shouldClear (drop 2 argv') \<and> \<not> shouldForce (drop 2 argv') \<longrightarrow>
      db_file (main (Some db) argv) = db_file (main (Some db) argv'))"
proof -
  have "db_file (main (Some db) a) = Some (fst (seedMonitors (cleared db a)))" for a
    using main_Some [of db a] by auto
  then show ?thesis by (simp add: cleared_def)
qed

theorem run_modes_witness:
  "shouldClear (drop 2 [''bun'', ''seed.ts'', ''--clear'', ''--force'']) \<and>
   shouldForce (drop 2 [''bun'', ''seed.ts'', ''--clear'', ''--force'']) \<and>
   shouldClear (drop 2 [''bun'', ''seed.ts'', ''-c'']) \<and>
   \<not> shouldForce (drop 2 [''bun'', ''seed.ts'', ''-c'']) \<and>
   db_file (main (Some \<lparr>rows = [other_row], seq = 1\<rparr>) [''bun'', ''seed.ts'', ''--clear'', ''--force'']) =
   db_file (main (Some \<lparr>rows = [other_row], seq = 1\<rparr>) [''bun'', ''seed.ts'', ''-c''])"
proof -
  have "shouldClear (drop 2 [''bun'', ''seed.ts'', ''--clear'', ''--force'']) \<and>
   shouldForce (drop 2 [''bun'', ''seed.ts'', ''--clear'', ''--force'']) \<and>
   shouldClear (drop 2 [''bun'', ''seed.ts'', ''-c'']) \<and>
   \<not> shouldForce (drop 2 [''bun'', ''seed.ts'', ''-c''])"
    by (simp add: shouldClear_def shouldForce_def)
  with run_modes [of "\<lparr>rows = [other_row], seq = 1\<rparr>"
      "[''bun'', ''seed.ts'', ''--clear'', ''--force'']" "[''bun'', ''seed.ts'', ''-c'']"]
  show ?thesis by blast
qed

text \<open>
  Claim C8. Seeding changes no row that is already there: the rows found before the run
  are, in the same order and with every column as it was, the first rows after it.
\<close>

theorem seedMonitors_keeps_rows:
  "take (length (rows db)) (rows (fst (seedMonitors db))) = rows db"
proof -
  obtain new where "rows (fst (seed_loop monitors db 0 0 [])) = rows db @ new"
    using seed_loop_extends by blast
  then show ?thesis by (simp add: fst_seedMonitors)
qed

text \<open>
  Claim C9. Without a database file the run ends with status 1, having printed the
  banner and the two error lines only, and there is still no file. With a database file
  (the storage statements of the model always succeed) the run ends with status 0, and
  its last lines are the summary, the total count of the database it leaves, and the two
  closing lines.
\<close>

theorem exit_behaviour:
  "main None argv =
     \<lparr>exit_status = 1, db_file = None, console = [Banner, DatabaseNotFound, StartKumaHint]\<rparr> \<and>
   (\<exists>db' pre i s. main (Some db) argv =
     \<lparr>exit_status = 0, db_file = Some db',
      console = pre @ [Summary i s, TotalMonitors (count_query db'), MigrationComplete, RestartHint]\<rparr>)"
proof
  show "main None argv =
     \<lparr>exit_status = 1, db_file = None, console = [Banner, DatabaseNotFound, StartKumaHint]\<rparr>"
    by (simp add: main_def)
next
  obtain pre where m: "main (Some db) argv =
     \<lparr>exit_status = 0, db_file = Some (fst (seedMonitors (cleared db argv))),
      console = pre @ snd (seedMonitors (cleared db argv)) @
        [TotalMonitors (count_query (fst (seedMonitors (cleared db argv)))),
         MigrationComplete, RestartHint]\<rparr>"
    using main_Some by blast
  obtain out i s where "snd (seedMonitors (cleared db argv)) = out @ [Summary i s]"
    using seedMonitors_summary by blast
  with m have "main (Some db) argv =
     \<lparr>exit_status = 0, db_file = Some (fst (seedMonitors (cleared db argv))),
      console = (pre @ out) @ [Summary i s, TotalMonitors (count_query (fst (seedMonitors (cleared db argv)))),
         MigrationComplete, RestartHint]\<rparr>"
    by simp
  then show "\<exists>db' pre i s. main (Some db) argv =
     \<lparr>exit_status = 0, db_file = Some db',
      console = pre @ [Summary i s, TotalMonitors (count_query db'), MigrationComplete, RestartHint]\<rparr>"
    by blast
qed

text \<open>
  Claim C10. For any catalogue, also one that repeats a path: a run adds at most one row
  per url, and an entry whose path an earlier entry has is skipped, since the existence
  check reads the database as the earlier inserts of the same run left it.
\<close>

theorem duplicate_path_skipped:
  "length (filter (\<lambda>r. col_url r = Some u)
             (drop (length (rows db)) (rows (fst (seed_loop ms db i s out))))) \<le> 1 \<and>
   (path m' = path m \<longrightarrow>
      seed_loop (xs @ m # ys @ m' # zs) db i s out =
        (case seed_loop (xs @ m # ys) db i s out of
           (db', i', s', out') \<Rightarrow> seed_loop zs db' i' (s' + 1) (out' @ [Skipping (name m')])))"
proof
  obtain new where new: "rows (fst (seed_loop ms db i s out)) = rows db @ new"
    "distinct (map col_url new)"
    using seed_loop_new_rows by blast
  from new(2) have "length (filter (\<lambda>r. col_url r = Some u) new) \<le> 1"
    by (rule distinct_filter_le1)
  with new(1) show "length (filter (\<lambda>r. col_url r = Some u)
             (drop (length (rows db)) (rows (fst (seed_loop ms db i s out))))) \<le> 1"
    by simp
next
  show "path m' = path m \<longrightarrow>
      seed_loop (xs @ m # ys @ m' # zs) db i s out =
        (case seed_loop (xs @ m # ys) db i s out of
           (db', i', s', out') \<Rightarrow> seed_loop zs db' i' (s' + 1) (out' @ [Skipping (name m')]))"
  proof
    assume same: "path m' = path m"
    obtain db' i' s' out' where run: "seed_loop (xs @ m # ys) db i s out = (db', i', s', out')"
      by (cases "seed_loop (xs @ m # ys) db i s out") auto
    have "Some (MOCK_SERVER_BASE @ path m) \<in> col_url ` set (rows (fst (seed_loop (xs @ m # ys) db i s out)))"
      unfolding seed_loop_urls by simp
    with run same have "Some (MOCK_SERVER_BASE @ path m') \<in> col_url ` set (rows db')" by simp
    then have "seed_loop (m' # zs) db' i' s' out' = seed_loop zs db' i' (s' + 1) (out' @ [Skipping (name m')])"
      by (simp add: seed_loop_Cons del: seed_loop.simps(2))
    moreover have "seed_loop (xs @ m # ys @ m' # zs) db i s out = seed_loop (m' # zs) db' i' s' out'"
      using seed_loop_append [of "xs @ m # ys" "m' # zs" db i s out] run by simp
    ultimately show "seed_loop (xs @ m # ys @ m' # zs) db i s out =
        (case seed_loop (xs @ m # ys) db i s out of
           (db', i', s', out') \<Rightarrow> seed_loop zs db' i' (s' + 1) (out' @ [Skipping (name m')]))"
      using run by simp
  qed
qed

theorem duplicate_path_skipped_witness:
  "path ping_again = path ping_def \<and>
   seed_loop [ping_def, ping_again] empty_db 0 0 [] =
     (fst (seed_loop [ping_def] empty_db 0 0 []), 1, 1, [Inserted ''Ping'', Skipping ''Ping again''])"
  using duplicate_path_skipped [of _ empty_db "[]" 0 0 "[]" ping_again ping_def "[]" "[]" "[]"]
  by (simp add: ping_def_def ping_again_def empty_db_def existingStmt_get_def split: prod.splits)

end
